theory Spec2Isabelle
  imports Complex_Main "HOL-Library.Multiset" "HOL-Library.List_Lexorder"
    "HOL-Library.Char_ord" "HOL-Library.Product_Lexorder"
begin

section \<open>NumPy floating-point values\<close>

text \<open>
  The arrays of \<^verbatim>\<open>nps_nhpp.py\<close> and the columns of the cohort scripts hold IEEE doubles.
  A double is modelled as a finite real number or one of the three special values, so
  that division by zero, \<^verbatim>\<open>nan\<close> propagation and comparisons with \<^verbatim>\<open>nan\<close> behave as
  NumPy's do. Arithmetic on finite values is exact: rounding, overflow and underflow are
  not part of the model, and the two zeros are one value (treated as \<^verbatim>\<open>+0.0\<close>). A property
  of computed values that an overflow of the program would break is stated with a bound
  that keeps the values in the range of a double.
\<close>

datatype npfloat = Fin real | PInf | NInf | NaN

fun isnan :: "npfloat \<Rightarrow> bool" where
  "isnan NaN = True"
| "isnan _ = False"

fun fneg :: "npfloat \<Rightarrow> npfloat" where
  "fneg (Fin a) = Fin (- a)"
| "fneg PInf = NInf"
| "fneg NInf = PInf"
| "fneg NaN = NaN"

fun fadd :: "npfloat \<Rightarrow> npfloat \<Rightarrow> npfloat" where
  "fadd (Fin a) (Fin b) = Fin (a + b)"
| "fadd NaN _ = NaN"
| "fadd _ NaN = NaN"
| "fadd PInf NInf = NaN"
| "fadd NInf PInf = NaN"
| "fadd PInf _ = PInf"
| "fadd _ PInf = PInf"
| "fadd NInf _ = NInf"
| "fadd _ NInf = NInf"

definition fsub :: "npfloat \<Rightarrow> npfloat \<Rightarrow> npfloat" where
  "fsub a b = fadd a (fneg b)"

fun fdiv :: "npfloat \<Rightarrow> npfloat \<Rightarrow> npfloat" where
  "fdiv (Fin a) (Fin b) =
     (if b = 0 then (if a = 0 then NaN else if 0 < a then PInf else NInf)
      else Fin (a / b))"
| "fdiv NaN _ = NaN"
| "fdiv _ NaN = NaN"
| "fdiv (Fin a) _ = Fin 0"
| "fdiv PInf (Fin b) = (if 0 \<le> b then PInf else NInf)"
| "fdiv NInf (Fin b) = (if 0 \<le> b then NInf else PInf)"
| "fdiv _ _ = NaN"

text \<open>\<^verbatim>\<open>a >= b\<close>: false as soon as one side is \<^verbatim>\<open>nan\<close>.\<close>

fun fge :: "npfloat \<Rightarrow> npfloat \<Rightarrow> bool" where
  "fge (Fin a) (Fin b) = (b \<le> a)"
| "fge NaN _ = False"
| "fge _ NaN = False"
| "fge PInf _ = True"
| "fge _ NInf = True"
| "fge _ _ = False"

text \<open>\<^verbatim>\<open>np.exp\<close>.\<close>

fun fexp :: "npfloat \<Rightarrow> npfloat" where
  "fexp (Fin a) = Fin (exp a)"
| "fexp PInf = PInf"
| "fexp NInf = Fin 0"
| "fexp NaN = NaN"

text \<open>
  \<^verbatim>\<open>np.isclose(a, b)\<close> with its default tolerances \<^verbatim>\<open>rtol=1e-05\<close>, \<^verbatim>\<open>atol=1e-08\<close> and
  \<^verbatim>\<open>equal_nan=False\<close>: finite values are close when \<open>\<bar>a - b\<bar> \<le> atol + rtol * \<bar>b\<bar>\<close>,
  infinities only when equal, \<^verbatim>\<open>nan\<close> never.
\<close>

definition rtol :: real where
  "rtol = 1 / 100000"

definition atol :: real where
  "atol = 1 / 100000000"

fun isclose :: "npfloat \<Rightarrow> npfloat \<Rightarrow> bool" where
  "isclose (Fin a) (Fin b) = (\<bar>a - b\<bar> \<le> atol + rtol * \<bar>b\<bar>)"
| "isclose PInf PInf = True"
| "isclose NInf NInf = True"
| "isclose _ _ = False"

text \<open>\<^verbatim>\<open>sum\<close> along an axis and \<^verbatim>\<open>np.cumsum\<close> along an axis, on one row.\<close>

definition np_sum :: "npfloat list \<Rightarrow> npfloat" where
  "np_sum xs = foldl fadd (Fin 0) xs"

fun cumsum_from :: "npfloat \<Rightarrow> npfloat list \<Rightarrow> npfloat list" where
  "cumsum_from acc [] = []"
| "cumsum_from acc (x # xs) = fadd acc x # cumsum_from (fadd acc x) xs"

definition np_cumsum :: "npfloat list \<Rightarrow> npfloat list" where
  "np_cumsum xs = cumsum_from (Fin 0) xs"

text \<open>
  \<^verbatim>\<open>np.argmax\<close> of a non-empty row of booleans: the index of the first maximum, so the
  index of the first \<^verbatim>\<open>True\<close>, and 0 when the row holds no \<^verbatim>\<open>True\<close> at all.
\<close>

definition np_argmax :: "bool list \<Rightarrow> nat" where
  "np_argmax bs = (if True \<in> set bs then length (takeWhile Not bs) else 0)"

text \<open>\<^verbatim>\<open>np.arange(0, n)\<close>.\<close>

definition np_arange :: "nat \<Rightarrow> npfloat list" where
  "np_arange n = map (\<lambda>i. Fin (real i)) [0..<n]"


section \<open>The batched categorical sampler \<^verbatim>\<open>nps_nhpp\<close>\<close>

text \<open>
  A two-dimensional array is the list of its rows; a well-formed one is rectangular.
  \<^verbatim>\<open>shape[0]\<close> is the number of rows and \<^verbatim>\<open>shape[1]\<close> the length of a row.
\<close>

type_synonym ndarray2 = "npfloat list list"

definition shape0 :: "ndarray2 \<Rightarrow> nat" where
  "shape0 a = length a"

definition shape1 :: "ndarray2 \<Rightarrow> nat" where
  "shape1 a = (case a of [] \<Rightarrow> 0 | r # _ \<Rightarrow> length r)"

definition rectangular :: "ndarray2 \<Rightarrow> bool" where
  "rectangular a = list_all (\<lambda>r. length r = shape1 a) a"

text \<open>The value the function returns: an array of one or of two dimensions.\<close>

datatype ndarray = Array1 "npfloat list" | Array2 "npfloat list list"

datatype py_error = ValueError | IndexError

definition valid_correction :: "string set" where
  "valid_correction = {''none'', ''uniform''}"

definition warning :: string where
  "warning = ''Warning: the correction argument only accepts the following inputs: ''
     @ [CHR 0x27] @ ''none'' @ [CHR 0x27] @ '' and '' @ [CHR 0x27] @ ''uniform'' @ [CHR 0x27]"

text \<open>
  Lines 67 to 69: when not every row sum is close to 1, every row is divided by its own
  sum (\<^verbatim>\<open>keepdims=True\<close> makes the sums a column, broadcast along each row).
\<close>

definition all_rows_close :: "ndarray2 \<Rightarrow> bool" where
  "all_rows_close a = list_all (\<lambda>r. isclose (np_sum r) (Fin 1)) a"

definition divide_rows :: "ndarray2 \<Rightarrow> ndarray2" where
  "divide_rows a = map (\<lambda>r. map (\<lambda>x. fdiv x (np_sum r)) r) a"

definition normalize_probs :: "ndarray2 \<Rightarrow> ndarray2" where
  "normalize_probs a = (if \<not> all_rows_close a then divide_rows a else a)"

text \<open>
  Line 75: \<^verbatim>\<open>np.random.uniform(size = n)\<close> reads the process-wide generator. The
  generator is a parameter of the model: the stream \<open>rng\<close> of the values it hands out
  next, of which a call of size \<open>n\<close> takes the first \<open>n\<close>. \<^verbatim>\<open>np.vstack\<close> turns the draws
  into a column of shape \<open>(n, 1)\<close>, one draw per row.
\<close>

definition random_uniform :: "(nat \<Rightarrow> real) \<Rightarrow> nat \<Rightarrow> npfloat list" where
  "random_uniform rng n = map (\<lambda>i. Fin (rng i)) [0..<n]"

text \<open>Lines 79 to 85: row-wise cumulative sums, comparison with the row's draw, first hit.\<close>

definition a_cum_probs :: "ndarray2 \<Rightarrow> ndarray2" where
  "a_cum_probs a = map np_cumsum (normalize_probs a)"

definition comparison_result :: "(nat \<Rightarrow> real) \<Rightarrow> ndarray2 \<Rightarrow> bool list list" where
  "comparison_result rng a =
     map2 (\<lambda>row u. map (\<lambda>c. fge c u) row) (a_cum_probs a) (random_uniform rng (shape0 a))"

definition positions :: "(nat \<Rightarrow> real) \<Rightarrow> ndarray2 \<Rightarrow> nat list" where
  "positions rng a = map np_argmax (comparison_result rng a)"

text \<open>
  Line 87: indexing the one-dimensional label array with the array of positions raises
  \<^verbatim>\<open>IndexError\<close> when a position is not below the number of labels.
\<close>

definition take_labels :: "npfloat list \<Rightarrow> nat list \<Rightarrow> py_error + npfloat list" where
  "take_labels cats ps =
     (if list_all (\<lambda>p. p < length cats) ps then Inr (map (\<lambda>p. cats ! p) ps)
      else Inl IndexError)"

text \<open>
  Line 90: the labels have shape \<open>(n,)\<close> and the draws shape \<open>(n, 1)\<close>; NumPy broadcasts
  their sum to shape \<open>(n, n)\<close>, entry \<open>(i, j)\<close> being label \<open>j\<close> plus draw \<open>i\<close>.
\<close>

definition add_column :: "npfloat list \<Rightarrow> npfloat list \<Rightarrow> npfloat list list" where
  "add_column vals col = map (\<lambda>u. map (\<lambda>c. fadd c u) vals) col"

text \<open>
  The function returns its value or raises, and may print one line before. With no
  row, \<^verbatim>\<open>np.vstack\<close> has nothing to stack and raises \<^verbatim>\<open>ValueError\<close>; with rows of no
  column, \<^verbatim>\<open>np.argmax\<close> raises \<^verbatim>\<open>ValueError\<close>. The assignment of \<^verbatim>\<open>None\<close> on line 61 is
  overwritten on line 87 and has no effect.
\<close>

definition labels_of :: "npfloat list option \<Rightarrow> ndarray2 \<Rightarrow> npfloat list" where
  "labels_of a_categories a_probs =
     (case a_categories of None \<Rightarrow> np_arange (shape1 a_probs) | Some c \<Rightarrow> c)"

definition nps_nhpp ::
  "(nat \<Rightarrow> real) \<Rightarrow> ndarray2 \<Rightarrow> string \<Rightarrow> npfloat list option \<Rightarrow> (py_error + ndarray) \<times> string list"
where
  "nps_nhpp rng a_probs correction a_categories =
     (let printed = (if correction \<notin> valid_correction then [warning] else []);
          cats = labels_of a_categories a_probs;
          a_samp_size = shape0 a_probs;
          a_unif_probs = random_uniform rng a_samp_size
      in if a_samp_size = 0 then (Inl ValueError, printed)
         else if shape1 a_probs = 0 then (Inl ValueError, printed)
         else
           (case take_labels cats (positions rng a_probs) of
              Inl e \<Rightarrow> (Inl e, printed)
            | Inr corresponding_values \<Rightarrow>
                if correction = ''uniform''
                then (Inr (Array2 (add_column corresponding_values a_unif_probs)), printed)
                else (Inr (Array1 corresponding_values), printed)))"




text \<open>
  The preconditions of the sampler: at least one row and one column, every entry
  \<^verbatim>\<open>>= 0\<close>, and as many labels as columns when labels are given.
\<close>

definition nonneg_entries :: "ndarray2 \<Rightarrow> bool" where
  "nonneg_entries a = list_all (list_all (\<lambda>x. fge x (Fin 0))) a"

definition valid_prob_matrix :: "ndarray2 \<Rightarrow> bool" where
  "valid_prob_matrix a = (0 < shape0 a \<and> 0 < shape1 a \<and> rectangular a \<and> nonneg_entries a)"

definition labels_ok :: "npfloat list option \<Rightarrow> ndarray2 \<Rightarrow> bool" where
  "labels_ok a_categories a = (length (labels_of a_categories a) = shape1 a)"


section \<open>The hazard-to-PMF transform of the cohort scripts\<close>

text \<open>
  \<^verbatim>\<open>02_homogeneous_cohort.py\<close> and \<^verbatim>\<open>03_heterogeneous_cohort.py\<close> share lines 30 to 57.
  Their input is the data frame of line 28: the mortality table of one year, one row
  per sex and age, already sorted. A row of it has the columns \<open>Sex\<close>, \<open>Year\<close>, \<open>Age\<close>
  and \<open>Rate\<close>; lines 34 to 37 add the columns \<open>H_t\<close>, \<open>S_t\<close>, \<open>F_t\<close> and \<open>p_t\<close>.
\<close>

record raw_row =
  Sex :: string
  Year :: int
  Age :: int
  Rate :: npfloat

record mort_row = raw_row +
  H_t :: npfloat
  S_t :: npfloat
  F_t :: npfloat
  p_t :: npfloat

text \<open>
  Line 34, \<^verbatim>\<open>groupby('Sex')['Rate'].cumsum()\<close>: one running sum per group, each value
  written at the position of its row. pandas skips \<^verbatim>\<open>nan\<close> entries: the result is \<^verbatim>\<open>nan\<close>
  there and the running sum is left as it was. The sum is a compensated one: every group
  has a running sum and a compensation term, the value added is the entry minus the
  compensation, and the new compensation is what the addition lost. On finite values,
  added exactly, the compensation stays 0; once a running sum is infinite the
  compensation is \<^verbatim>\<open>nan\<close>, and so is every later value of the group.
\<close>

fun group_cumsum_from ::
  "(string \<Rightarrow> npfloat \<times> npfloat) \<Rightarrow> (string \<times> npfloat) list \<Rightarrow> npfloat list"
where
  "group_cumsum_from acc [] = []"
| "group_cumsum_from acc ((k, v) # kvs) =
     (if isnan v then NaN # group_cumsum_from acc kvs
      else
        (let accum = fst (acc k);
             compensation = snd (acc k);
             y = fsub v compensation;
             t = fadd accum y
         in t # group_cumsum_from (acc(k := (t, fsub (fsub t accum) y))) kvs))"

text \<open>
  Line 37, \<^verbatim>\<open>groupby('Sex')['F_t'].diff()\<close>: each value minus the previous value of its
  group, \<^verbatim>\<open>nan\<close> on the first row of a group; \<^verbatim>\<open>fillna\<close> then puts the row's own \<open>F_t\<close>
  wherever the difference is \<^verbatim>\<open>nan\<close>.
\<close>

fun group_diff_from :: "(string \<Rightarrow> npfloat option) \<Rightarrow> (string \<times> npfloat) list \<Rightarrow> npfloat list" where
  "group_diff_from prev [] = []"
| "group_diff_from prev ((k, v) # kvs) =
     (case prev k of None \<Rightarrow> NaN | Some q \<Rightarrow> fsub v q) # group_diff_from (prev(k \<mapsto> v)) kvs"

definition fillna :: "npfloat \<Rightarrow> npfloat \<Rightarrow> npfloat" where
  "fillna d f = (if isnan d then f else d)"

text \<open>
  Lines 34 to 37, column by column. The running sums, with their compensation terms,
  and the previous values the groups start from are parameters; the scripts start from
  none.
\<close>

definition add_columns ::
  "(string \<Rightarrow> npfloat \<times> npfloat) \<Rightarrow> (string \<Rightarrow> npfloat option) \<Rightarrow> raw_row list \<Rightarrow>
     mort_row list"
where
  "add_columns acc prev df =
     (let keys = map Sex df;
          H = group_cumsum_from acc (zip keys (map Rate df));
          S = map (\<lambda>x. fexp (fneg x)) H;
          F = map (\<lambda>s. fsub (Fin 1) s) S;
          P = map2 fillna (group_diff_from prev (zip keys F)) F
      in map (\<lambda>(r, h, s, f, p). raw_row.extend r (mort_row.fields h s f p))
           (zip df (zip H (zip S (zip F P)))))"

definition df_mort_data_1 :: "raw_row list \<Rightarrow> mort_row list" where
  "df_mort_data_1 df = add_columns (\<lambda>_. (Fin 0, Fin 0)) Map.empty df"

text \<open>Line 44, \<^verbatim>\<open>groupby(["Sex"]).tail(1)\<close>: the last row of every group, in frame order.\<close>

fun groupby_tail1 :: "mort_row list \<Rightarrow> mort_row list" where
  "groupby_tail1 [] = []"
| "groupby_tail1 (r # rs) =
     (if Sex r \<in> set (map Sex rs) then groupby_tail1 rs else r # groupby_tail1 rs)"

text \<open>
  Lines 46 to 51, on one row. \<^verbatim>\<open>df[["F_t", "p_t"]].sum(axis = 1)\<close> skips \<^verbatim>\<open>nan\<close>, as
  every pandas sum does.
\<close>

definition nansum :: "npfloat list \<Rightarrow> npfloat" where
  "nansum xs = np_sum (filter (\<lambda>x. \<not> isnan x) xs)"

definition append_row :: "mort_row \<Rightarrow> mort_row" where
  "append_row r =
     (let r1 = r\<lparr>Age := 101\<rparr>;
          r2 = r1\<lparr>p_t := fsub (Fin 1) (F_t r1)\<rparr>;
          r3 = r2\<lparr>F_t := nansum [F_t r2, p_t r2]\<rparr>;
          r4 = r3\<lparr>S_t := fsub (Fin 1) (F_t r3)\<rparr>;
          r5 = r4\<lparr>H_t := NaN\<rparr>
      in r5\<lparr>H_t := NaN, Rate := NaN\<rparr>)"

definition df_mort_append_0 :: "raw_row list \<Rightarrow> mort_row list" where
  "df_mort_append_0 df = map append_row (groupby_tail1 (df_mort_data_1 df))"

text \<open>Lines 55 to 57: concatenation, then a sort by sex, year and age.\<close>

definition df_mort_data_2 :: "raw_row list \<Rightarrow> mort_row list" where
  "df_mort_data_2 df =
     sort_key (\<lambda>r. (Sex r, Year r, Age r)) (df_mort_data_1 df @ df_mort_append_0 df)"

text \<open>
  Line 60, \<^verbatim>\<open>groupby(["Sex"])["p_t"].sum()\<close>, for one group. The expression is evaluated
  in \<^verbatim>\<open>03_heterogeneous_cohort.py\<close> and its value dropped; it is a comment in
  \<^verbatim>\<open>02_homogeneous_cohort.py\<close>.
\<close>

definition stratum :: "string \<Rightarrow> ('a raw_row_scheme) list \<Rightarrow> ('a raw_row_scheme) list" where
  "stratum s df = filter (\<lambda>r. Sex r = s) df"

definition p_t_sum :: "mort_row list \<Rightarrow> string \<Rightarrow> npfloat" where
  "p_t_sum df s = nansum (map p_t (stratum s df))"

text \<open>
  The survival curve as the specification words it, for the hazard increments \<open>rs\<close> of
  one stratum and a category \<open>t\<close>.
\<close>

definition spec_H :: "real list \<Rightarrow> nat \<Rightarrow> real" where
  "spec_H rs t = sum_list (take (Suc t) rs)"

definition spec_S :: "real list \<Rightarrow> nat \<Rightarrow> real" where
  "spec_S rs t = exp (- spec_H rs t)"

definition spec_F :: "real list \<Rightarrow> nat \<Rightarrow> real" where
  "spec_F rs t = 1 - spec_S rs t"

definition spec_p :: "real list \<Rightarrow> nat \<Rightarrow> real" where
  "spec_p rs t = (if t = 0 then spec_F rs 0 else spec_F rs t - spec_F rs (t - 1))"

text \<open>
  The same curve as lists, for the proofs: the running sums of the increments from a
  starting value, and the differences of consecutive values, the first value being kept
  when nothing precedes it.
\<close>

fun running_sum :: "real \<Rightarrow> real list \<Rightarrow> real list" where
  "running_sum a [] = []"
| "running_sum a (x # xs) = (a + x) # running_sum (a + x) xs"

fun first_diff :: "real option \<Rightarrow> real list \<Rightarrow> real list" where
  "first_diff q [] = []"
| "first_diff q (f # fs) = (case q of None \<Rightarrow> f | Some g \<Rightarrow> f - g) # first_diff (Some f) fs"

text \<open>
  The row of a stratum with finite rates, from the input row, its cumulative hazard and
  its instantaneous probability.
\<close>

definition curve_row :: "raw_row \<Rightarrow> real \<times> real \<Rightarrow> mort_row" where
  "curve_row r hp = raw_row.extend r (mort_row.fields (Fin (fst hp)) (Fin (exp (- fst hp)))
       (Fin (1 - exp (- fst hp))) (Fin (snd hp)))"


section \<open>Properties of the sampler\<close>

subsection \<open>Shapes of the intermediate arrays\<close>

lemma length_cumsum_from [simp]: "length (cumsum_from acc xs) = length xs"
  by (induction xs arbitrary: acc) simp_all

lemma length_np_cumsum [simp]: "length (np_cumsum xs) = length xs"
  by (simp add: np_cumsum_def)

lemma length_normalize_probs [simp]: "length (normalize_probs a) = length a"
  by (simp add: normalize_probs_def divide_rows_def)

lemma length_normalize_probs_row [simp]:
  "r < length a \<Longrightarrow> length (normalize_probs a ! r) = length (a ! r)"
  by (simp add: normalize_probs_def divide_rows_def)

lemma length_a_cum_probs [simp]: "length (a_cum_probs a) = length a"
  by (simp add: a_cum_probs_def)

lemma length_a_cum_probs_row [simp]:
  "r < length a \<Longrightarrow> length (a_cum_probs a ! r) = length (a ! r)"
  by (simp add: a_cum_probs_def)

lemma length_comparison_result [simp]: "length (comparison_result rng a) = length a"
  by (simp add: comparison_result_def shape0_def random_uniform_def)

lemma comparison_result_nth:
  "r < length a \<Longrightarrow>
   comparison_result rng a ! r = map (\<lambda>c. fge c (Fin (rng r))) (a_cum_probs a ! r)"
  by (simp add: comparison_result_def shape0_def random_uniform_def)

lemma length_positions [simp]: "length (positions rng a) = length a"
  by (simp add: positions_def)

lemma positions_nth:
  "r < length a \<Longrightarrow> positions rng a ! r = np_argmax (comparison_result rng a ! r)"
  by (simp add: positions_def)

subsection \<open>The first hit\<close>

lemma np_argmax_less: "bs \<noteq> [] \<Longrightarrow> np_argmax bs < length bs"
proof (cases "True \<in> set bs")
  case True
  then have "takeWhile Not bs \<noteq> bs"
    by (metis (full_types) set_takeWhileD)
  then have "length (takeWhile Not bs) < length bs"
    by (metis length_takeWhile_le le_neq_implies_less takeWhile_eq_all_conv takeWhile_eq_take take_all_iff)
  with True show ?thesis by (simp add: np_argmax_def)
next
  case False
  assume "bs \<noteq> []"
  with False show ?thesis by (simp add: np_argmax_def)
qed

lemma np_argmax_hit: "True \<in> set bs \<Longrightarrow> bs ! np_argmax bs"
proof -
  assume t: "True \<in> set bs"
  then have "bs \<noteq> []" by auto
  then have "np_argmax bs < length bs" by (rule np_argmax_less)
  with t have "length (takeWhile Not bs) < length bs" by (simp add: np_argmax_def)
  then have "\<not> Not (bs ! length (takeWhile Not bs))" by (rule nth_length_takeWhile)
  with t show ?thesis by (simp add: np_argmax_def)
qed

lemma np_argmax_first: "j < np_argmax bs \<Longrightarrow> \<not> bs ! j"
proof -
  assume j: "j < np_argmax bs"
  then have t: "True \<in> set bs" by (auto simp: np_argmax_def split: if_splits)
  with j have jl: "j < length (takeWhile Not bs)" by (simp add: np_argmax_def)
  then have "takeWhile Not bs ! j = bs ! j" by (rule takeWhile_nth)
  moreover from jl have "takeWhile Not bs ! j \<in> set (takeWhile Not bs)" by simp
  ultimately show ?thesis by (metis set_takeWhileD)
qed

lemma np_argmax_none: "True \<notin> set bs \<Longrightarrow> np_argmax bs = 0"
  by (simp add: np_argmax_def)

lemma rectangular_nth: "rectangular a \<Longrightarrow> r < length a \<Longrightarrow> length (a ! r) = shape1 a"
  by (simp add: rectangular_def list_all_length)

lemma cum_row_length:
  assumes "valid_prob_matrix a" "r < shape0 a"
  shows "length (a_cum_probs a ! r) = shape1 a"
  using assms by (simp add: valid_prob_matrix_def shape0_def rectangular_nth)

text \<open>
  Claim C1, as the code has it. For a matrix with at least one row and one column and
  entries \<^verbatim>\<open>>= 0\<close>, the index sampled for row \<open>r\<close> is a valid category index, and whenever
  some cumulative probability of the row reaches the row's draw it is the smallest
  index whose cumulative probability does: the cumulative value there is \<^verbatim>\<open>>=\<close> the
  draw, and no cumulative value before is. The cumulative values are those of the
  matrix after lines 67 to 69.
\<close>

theorem positions_first_hit:
  assumes "valid_prob_matrix a" and "r < shape0 a"
  shows "positions rng a ! r < shape1 a \<and>
         ((\<exists>j < shape1 a. fge (a_cum_probs a ! r ! j) (Fin (rng r))) \<longrightarrow>
            fge (a_cum_probs a ! r ! (positions rng a ! r)) (Fin (rng r)) \<and>
            (\<forall>j < positions rng a ! r. \<not> fge (a_cum_probs a ! r ! j) (Fin (rng r))))"
proof -
  let ?row = "a_cum_probs a ! r"
  let ?bs = "comparison_result rng a ! r"
  from assms have r: "r < length a" by (simp add: shape0_def)
  have len: "length ?row = shape1 a" using assms by (rule cum_row_length)
  have bs: "?bs = map (\<lambda>c. fge c (Fin (rng r))) ?row"
    using r by (rule comparison_result_nth)
  have pos: "positions rng a ! r = np_argmax ?bs" using r by (rule positions_nth)
  from assms(1) len bs have "?bs \<noteq> []" by (auto simp: valid_prob_matrix_def)
  then have less: "np_argmax ?bs < length ?bs" by (rule np_argmax_less)
  with bs len have bound: "np_argmax ?bs < shape1 a" by simp
  have hit: "fge (?row ! np_argmax ?bs) (Fin (rng r))"
    if "\<exists>j < shape1 a. fge (?row ! j) (Fin (rng r))"
  proof -
    from that obtain j where "j < shape1 a" "fge (?row ! j) (Fin (rng r))" by blast
    with len bs have "?bs ! j" "j < length ?bs" by simp_all
    then have "True \<in> set ?bs" by (metis nth_mem)
    then have "?bs ! np_argmax ?bs" by (rule np_argmax_hit)
    with bs bound len show ?thesis by simp
  qed
  have first: "\<not> fge (?row ! j) (Fin (rng r))" if "j < np_argmax ?bs" for j
  proof -
    from that have "\<not> ?bs ! j" by (rule np_argmax_first)
    moreover from that bound len have "j < length ?row" by simp
    ultimately show ?thesis using bs by simp
  qed
  from bound hit first pos show ?thesis by simp
qed

theorem positions_first_hit_witness:
  "valid_prob_matrix [[Fin (1/4), Fin (1/4), Fin (1/2)]] \<and> (0::nat) < shape0 [[Fin (1/4), Fin (1/4), Fin (1/2)]] \<and>
   (\<exists>j < shape1 [[Fin (1/4), Fin (1/4), Fin (1/2)]]. fge (a_cum_probs [[Fin (1/4), Fin (1/4), Fin (1/2)]] ! 0 ! j) (Fin (nth [3/8] 0))) \<and>
   positions (nth [3/8]) [[Fin (1/4), Fin (1/4), Fin (1/2)]] ! 0 = 1 \<and>
   fge (a_cum_probs [[Fin (1/4), Fin (1/4), Fin (1/2)]] ! 0 ! 1) (Fin (3/8)) \<and>
   \<not> fge (a_cum_probs [[Fin (1/4), Fin (1/4), Fin (1/2)]] ! 0 ! 0) (Fin (3/8))"
proof -
  let ?a = "[[Fin (1/4), Fin (1/4), Fin (1/2)]]"
  have v: "valid_prob_matrix ?a"
    by (simp add: valid_prob_matrix_def shape0_def shape1_def rectangular_def nonneg_entries_def)
  have r: "(0::nat) < shape0 ?a" by (simp add: shape0_def)
  have cum: "a_cum_probs ?a = [[Fin (1/4), Fin (1/2), Fin 1]]"
    by (simp add: a_cum_probs_def normalize_probs_def all_rows_close_def np_sum_def
        np_cumsum_def atol_def rtol_def)
  have ex: "\<exists>j < shape1 ?a. fge (a_cum_probs ?a ! 0 ! j) (Fin (nth [3/8] 0))"
    by (rule exI [of _ 2]) (simp add: cum shape1_def)
  have p: "positions (nth [3/8]) ?a ! 0 = 1"
    by (simp add: positions_def comparison_result_def cum shape0_def random_uniform_def
        np_argmax_def)
  from positions_first_hit [OF v r, of "nth [3/8]"] ex p v r show ?thesis
    by (simp add: cum)
qed

text \<open>
  Claim C1 as stated fails: the row \<open>[1/2, 1/2 - 2\<^sup>-\<^sup>2\<^sup>0]\<close> sums to \<open>1 - 2\<^sup>-\<^sup>2\<^sup>0\<close>, which
  \<^verbatim>\<open>np.isclose\<close> accepts, so it is not rescaled; the draw \<open>1 - 2\<^sup>-\<^sup>2\<^sup>1\<close> exceeds its last
  cumulative value, and the sampled index is 0, not the last index 1. All the numbers
  are binary fractions, exact as doubles.
\<close>

theorem clamp_counterexample:
  "valid_prob_matrix [[Fin (1/2), Fin (1/2 - 1/2^20)]] \<and>
   \<not> fge (last (a_cum_probs [[Fin (1/2), Fin (1/2 - 1/2^20)]] ! 0)) (Fin (nth [1 - 1/2^21] 0)) \<and>
   positions (nth [1 - 1/2^21]) [[Fin (1/2), Fin (1/2 - 1/2^20)]] ! 0 = 0 \<and>
   shape1 [[Fin (1/2), Fin (1/2 - 1/2^20)]] - 1 = 1"
  by (simp add: valid_prob_matrix_def shape0_def shape1_def rectangular_def nonneg_entries_def
      positions_def comparison_result_def a_cum_probs_def normalize_probs_def
      all_rows_close_def np_sum_def np_cumsum_def atol_def rtol_def random_uniform_def
      np_argmax_def)

text \<open>
  What \<^verbatim>\<open>np.argmax\<close> does there: a row none of whose cumulative values reaches the draw
  gets the index 0.
\<close>

lemma positions_no_hit:
  assumes "r < shape0 a"
    and "\<forall>j < length (a_cum_probs a ! r). \<not> fge (a_cum_probs a ! r ! j) (Fin (rng r))"
  shows "positions rng a ! r = 0"
proof -
  from assms(1) have r: "r < length a" by (simp add: shape0_def)
  from assms(2) have "True \<notin> set (map (\<lambda>c. fge c (Fin (rng r))) (a_cum_probs a ! r))"
    by (auto simp: in_set_conv_nth)
  with r show ?thesis by (simp add: positions_nth comparison_result_nth np_argmax_none)
qed

subsection \<open>What the call returns\<close>

lemma positions_less:
  assumes "valid_prob_matrix a" and "r < shape0 a"
  shows "positions rng a ! r < shape1 a"
proof -
  from assms have r: "r < length a" by (simp add: shape0_def)
  have len: "length (a_cum_probs a ! r) = shape1 a" using assms by (rule cum_row_length)
  from assms(1) have "0 < shape1 a" by (simp add: valid_prob_matrix_def)
  with len have "a_cum_probs a ! r \<noteq> []" by auto
  with r have "comparison_result rng a ! r \<noteq> []"
    by (simp add: comparison_result_nth)
  then have "np_argmax (comparison_result rng a ! r) < length (comparison_result rng a ! r)"
    by (rule np_argmax_less)
  with r len show ?thesis by (simp add: positions_nth comparison_result_nth)
qed

lemma length_np_arange [simp]: "length (np_arange n) = n"
  by (simp add: np_arange_def)

lemma labels_ok_None [simp]: "labels_ok None a"
  by (simp add: labels_ok_def labels_of_def)

lemma take_labels_positions:
  assumes "valid_prob_matrix a" and "labels_ok cats a"
  shows "take_labels (labels_of cats a) (positions rng a) =
         Inr (map (\<lambda>p. labels_of cats a ! p) (positions rng a))"
proof -
  have "p < length (labels_of cats a)" if "p \<in> set (positions rng a)" for p
  proof -
    from that obtain r where "r < length (positions rng a)" "positions rng a ! r = p"
      by (auto simp: in_set_conv_nth)
    with assms show ?thesis
      using positions_less [of a r rng] by (simp add: shape0_def labels_ok_def)
  qed
  then show ?thesis by (simp add: take_labels_def list_all_iff)
qed

lemma nps_nhpp_value:
  assumes "valid_prob_matrix a" and "labels_ok cats a"
  shows "nps_nhpp rng a correction cats =
         (Inr (if correction = ''uniform''
               then Array2 (add_column (map (\<lambda>p. labels_of cats a ! p) (positions rng a))
                              (random_uniform rng (shape0 a)))
               else Array1 (map (\<lambda>p. labels_of cats a ! p) (positions rng a))),
          if correction \<notin> valid_correction then [warning] else [])"
  using assms(1) take_labels_positions [OF assms, of rng]
  by (simp add: nps_nhpp_def Let_def valid_prob_matrix_def)

subsection \<open>The random source\<close>






subsection \<open>An unrecognised correction mode\<close>

text \<open>
  Claim C7, as the code has it. With a correction that is neither \<^verbatim>\<open>none\<close> nor
  \<^verbatim>\<open>uniform\<close>, a call on a valid matrix with matching labels does not fail: it prints the
  warning of line 60 and returns a value.
\<close>

theorem invalid_correction_warns:
  assumes "correction \<notin> valid_correction" and "valid_prob_matrix a" and "labels_ok cats a"
  shows "\<exists>v. nps_nhpp rng a correction cats = (Inr v, [warning])"
  using assms(1) nps_nhpp_value [OF assms(2,3), of rng correction] by simp

theorem invalid_correction_warns_witness:
  "''fuzzy'' \<notin> valid_correction \<and> valid_prob_matrix [[Fin (1/2), Fin (1/2)]] \<and>
   labels_ok (Some [Fin 10, Fin 20]) [[Fin (1/2), Fin (1/2)]] \<and>
   (\<exists>v. nps_nhpp (nth [3/4]) [[Fin (1/2), Fin (1/2)]] ''fuzzy'' (Some [Fin 10, Fin 20]) = (Inr v, [warning]))"
proof -
  have c: "''fuzzy'' \<notin> valid_correction" by (simp add: valid_correction_def)
  have v: "valid_prob_matrix [[Fin (1/2), Fin (1/2)]]"
    by (simp add: valid_prob_matrix_def shape0_def shape1_def rectangular_def nonneg_entries_def)
  have l: "labels_ok (Some [Fin 10, Fin 20]) [[Fin (1/2), Fin (1/2)]]"
    by (simp add: labels_ok_def labels_of_def shape1_def)
  from invalid_correction_warns [OF c v l] c v l show ?thesis by blast
qed

text \<open>
  Claim C7 as stated fails: the mode \<^verbatim>\<open>bogus\<close> raises nothing, and the call returns the
  label sampled for the row.
\<close>

theorem invalid_correction_counterexample:
  "''bogus'' \<notin> valid_correction \<and>
   nps_nhpp (nth [3/4]) [[Fin (1/2), Fin (1/2)]] ''bogus'' None = (Inr (Array1 [Fin 1]), [warning])"
  by (simp add: nps_nhpp_def valid_correction_def labels_of_def np_arange_def shape1_def shape0_def
        random_uniform_def take_labels_def positions_def comparison_result_def a_cum_probs_def
        normalize_probs_def all_rows_close_def np_sum_def atol_def rtol_def np_cumsum_def
        np_argmax_def upt_rec)

subsection \<open>Renormalisation\<close>

lemma foldl_fadd_Fin: "foldl fadd (Fin a) (map Fin xs) = Fin (a + sum_list xs)"
  by (induction xs arbitrary: a) (simp_all add: add.assoc)

lemma np_sum_Fin: "np_sum (map Fin xs) = Fin (sum_list xs)"
  by (simp add: np_sum_def foldl_fadd_Fin)

lemma fdiv_row_Fin:
  "s \<noteq> 0 \<Longrightarrow> map (\<lambda>x. fdiv x (Fin s)) (map Fin xs) = map Fin (map (\<lambda>x. x / s) xs)"
  by simp

lemma sum_list_divide: "sum_list (map (\<lambda>x. x / s) xs) = sum_list xs / (s::real)"
  by (induction xs) (simp_all add: add_divide_distrib)

lemma isclose_one: "isclose (Fin 1) (Fin 1)"
  by (simp add: atol_def rtol_def)

lemma divide_rows_nth:
  "r < length a \<Longrightarrow> divide_rows a ! r = map (\<lambda>x. fdiv x (np_sum (a ! r))) (a ! r)"
  by (simp add: divide_rows_def)

lemma normalize_probs_nth:
  "r < length a \<Longrightarrow>
   normalize_probs a ! r =
     (if all_rows_close a then a ! r else map (\<lambda>x. fdiv x (np_sum (a ! r))) (a ! r))"
  by (simp add: normalize_probs_def divide_rows_nth)

lemma normalized_row_close:
  assumes "r < length a" and "a ! r = map Fin xs" and "sum_list xs \<noteq> 0"
  shows "isclose (np_sum (normalize_probs a ! r)) (Fin 1)"
proof (cases "all_rows_close a")
  case True
  with assms(1) have "isclose (np_sum (a ! r)) (Fin 1)"
    by (simp add: all_rows_close_def list_all_length)
  with True assms(1) show ?thesis by (simp add: normalize_probs_nth)
next
  case False
  with assms have "normalize_probs a ! r = map Fin (map (\<lambda>x. x / sum_list xs) xs)"
    by (simp add: normalize_probs_nth np_sum_Fin)
  then have "np_sum (normalize_probs a ! r) = Fin (sum_list xs / sum_list xs)"
    by (simp only: np_sum_Fin sum_list_divide)
  with assms(3) have "np_sum (normalize_probs a ! r) = Fin 1" by simp
  then show ?thesis by (simp only: isclose_one)
qed

text \<open>
  Claim C6, as the code has it. No row is dropped. When every row sum is close to 1 in
  the sense of \<^verbatim>\<open>np.isclose\<close> (within \<open>10\<^sup>-\<^sup>8 + 10\<^sup>-\<^sup>5\<close> of 1) the matrix is left as it is;
  otherwise every row is divided by its own sum. Either way a row of finite,
  non-negative entries whose sum is positive and at most \<open>2\<^sup>1\<^sup>0\<^sup>2\<^sup>3\<close>, so that it stays in
  the range of a double, has afterwards a sum that is close to 1 in that sense. The row
  \<open>[0.3, 0.3, 0.3]\<close> becomes \<open>[1/3, 1/3, 1/3]\<close>.
\<close>

theorem normalize_probs_rows:
  "length (normalize_probs a) = length a \<and>
   (\<forall>r < length a.
      normalize_probs a ! r =
        (if all_rows_close a then a ! r else map (\<lambda>x. fdiv x (np_sum (a ! r))) (a ! r)) \<and>
      (\<forall>xs. a ! r = map Fin xs \<and> (\<forall>x\<in>set xs. 0 \<le> x) \<and> 0 < sum_list xs \<and>
            sum_list xs \<le> 2 ^ 1023 \<longrightarrow>
         isclose (np_sum (normalize_probs a ! r)) (Fin 1))) \<and>
   normalize_probs [[Fin (3/10), Fin (3/10), Fin (3/10)]] = [[Fin (1/3), Fin (1/3), Fin (1/3)]]"
proof -
  have e: "normalize_probs [[Fin (3/10), Fin (3/10), Fin (3/10)]] = [[Fin (1/3), Fin (1/3), Fin (1/3)]]"
    by (simp add: normalize_probs_def all_rows_close_def divide_rows_def np_sum_def atol_def rtol_def)
  have c: "isclose (np_sum (normalize_probs a ! r)) (Fin 1)"
    if "r < length a" and "a ! r = map Fin xs" and "0 < sum_list xs" for r xs
  proof -
    from that(3) have "sum_list xs \<noteq> 0" by simp
    with that(1,2) show ?thesis by (rule normalized_row_close)
  qed
  have f: "normalize_probs a ! r =
        (if all_rows_close a then a ! r else map (\<lambda>x. fdiv x (np_sum (a ! r))) (a ! r))"
    if "r < length a" for r
    using that by (rule normalize_probs_nth)
  have l: "length (normalize_probs a) = length a" by simp
  from l e c f show ?thesis by blast
qed

theorem normalize_probs_rows_witness:
  "(0::nat) < length [[Fin (1/5), Fin (3/5)], [Fin (1/2), Fin (1/2)]] \<and>
   [[Fin (1/5), Fin (3/5)], [Fin (1/2), Fin (1/2)]] ! 0 = map Fin [1/5, 3/5] \<and>
   (0::real) \<le> 1/5 \<and> (0::real) \<le> 3/5 \<and>
   0 < sum_list [1/5, 3/5 :: real] \<and> sum_list [1/5, 3/5 :: real] \<le> 2 ^ 1023 \<and>
   normalize_probs [[Fin (1/5), Fin (3/5)], [Fin (1/2), Fin (1/2)]] ! 0 = [Fin (1/4), Fin (3/4)] \<and>
   isclose (np_sum (normalize_probs [[Fin (1/5), Fin (3/5)], [Fin (1/2), Fin (1/2)]] ! 0)) (Fin 1) \<and>
   length (normalize_probs [[Fin (1/5), Fin (3/5)], [Fin (1/2), Fin (1/2)]]) = 2"
proof -
  let ?a = "[[Fin (1/5), Fin (3/5)], [Fin (1/2), Fin (1/2)]]"
  have n: "\<not> all_rows_close ?a"
    by (simp add: all_rows_close_def np_sum_def atol_def rtol_def)
  have s: "np_sum (?a ! 0) = Fin (4/5)" by (simp add: np_sum_def)
  have z: "(0::real) \<le> 1/5" "(0::real) \<le> 3/5" by simp_all
  have p: "0 < sum_list [1/5, 3/5 :: real]" by simp
  have b: "sum_list [1/5, 3/5 :: real] \<le> 2 ^ 1023" by simp
  have q: "?a ! 0 = map Fin [1/5, 3/5]" by simp
  have h: "?a ! 0 = map Fin [1/5, 3/5] \<and> (\<forall>x\<in>set [1/5, 3/5 :: real]. 0 \<le> x) \<and>
      0 < sum_list [1/5, 3/5 :: real] \<and> sum_list [1/5, 3/5 :: real] \<le> 2 ^ 1023"
    using b by simp
  have k: "0 < length ?a" by simp
  note T = normalize_probs_rows [of ?a]
  note W = T [THEN conjunct2, THEN conjunct1, rule_format, OF k]
  from T have l: "length (normalize_probs ?a) = length ?a" by (rule conjunct1)
  from W have e: "normalize_probs ?a ! 0 =
       (if all_rows_close ?a then ?a ! 0 else map (\<lambda>x. fdiv x (np_sum (?a ! 0))) (?a ! 0))"
    by (rule conjunct1)
  from W have "\<forall>xs. ?a ! 0 = map Fin xs \<and> (\<forall>x\<in>set xs. 0 \<le> x) \<and> 0 < sum_list xs \<and>
            sum_list xs \<le> 2 ^ 1023 \<longrightarrow> isclose (np_sum (normalize_probs ?a ! 0)) (Fin 1)"
    by (rule conjunct2)
  then have "?a ! 0 = map Fin [1/5, 3/5] \<and> (\<forall>x\<in>set [1/5, 3/5 :: real]. 0 \<le> x) \<and>
      0 < sum_list [1/5, 3/5 :: real] \<and> sum_list [1/5, 3/5 :: real] \<le> 2 ^ 1023 \<longrightarrow>
      isclose (np_sum (normalize_probs ?a ! 0)) (Fin 1)"
    by (rule spec)
  from this h have c: "isclose (np_sum (normalize_probs ?a ! 0)) (Fin 1)" by (rule mp)
  from e n s have v: "normalize_probs ?a ! 0 = [Fin (1/4), Fin (3/4)]" by simp
  from l have l2: "length (normalize_probs ?a) = 2" by simp
  from k q z p b v c l2 show ?thesis by (intro conjI)
qed

text \<open>
  Claim C6 as stated fails: the row sum \<open>1 - 2\<^sup>-\<^sup>2\<^sup>0\<close> is not within \<open>10\<^sup>-\<^sup>8\<close> of 1, yet the row
  is not rescaled, and sampling works on a row that does not sum to 1.
\<close>

theorem renormalize_counterexample:
  "np_sum ([[Fin (1/2), Fin (1/2 - 1/2^20)]] ! 0) = Fin (1 - 1/2^20) \<and>
   \<not> \<bar>(1 - 1/2^20) - 1\<bar> \<le> (1 / 10^8 :: real) \<and>
   normalize_probs [[Fin (1/2), Fin (1/2 - 1/2^20)]] = [[Fin (1/2), Fin (1/2 - 1/2^20)]] \<and>
   np_sum (normalize_probs [[Fin (1/2), Fin (1/2 - 1/2^20)]] ! 0) \<noteq> Fin 1"
  by (simp add: normalize_probs_def all_rows_close_def np_sum_def atol_def rtol_def)

subsection \<open>A row of zeros\<close>

lemma foldl_fadd_zeros:
  "list_all (\<lambda>x. x = Fin 0) xs \<Longrightarrow> foldl fadd (Fin 0) xs = Fin 0"
  by (induction xs) simp_all

lemma np_sum_zeros: "list_all (\<lambda>x. x = Fin 0) xs \<Longrightarrow> np_sum xs = Fin 0"
  by (simp add: np_sum_def foldl_fadd_zeros)

lemma fdiv_zeros:
  "list_all (\<lambda>x. x = Fin 0) xs \<Longrightarrow> map (\<lambda>x. fdiv x (Fin 0)) xs = replicate (length xs) NaN"
  by (induction xs) simp_all

lemma not_isclose_zero_one: "\<not> isclose (Fin 0) (Fin 1)"
  by (simp add: atol_def rtol_def)

lemma fadd_NaN_right [simp]: "fadd x NaN = NaN"
  by (cases x) simp_all

lemma cumsum_from_NaN: "cumsum_from NaN xs = replicate (length xs) NaN"
  by (induction xs) simp_all

lemma cumsum_from_replicate_NaN: "cumsum_from acc (replicate n NaN) = replicate n NaN"
  by (cases n) (simp_all add: cumsum_from_NaN)

lemma fge_NaN_left: "fge NaN u = False"
  by simp

lemma np_argmax_all_False: "np_argmax (replicate n False) = 0"
  by (simp add: np_argmax_def)

lemma zero_row_normalized:
  assumes "r < length a" and "list_all (\<lambda>x. x = Fin 0) (a ! r)"
  shows "normalize_probs a ! r = replicate (length (a ! r)) NaN"
proof -
  from assms(2) have s: "np_sum (a ! r) = Fin 0" by (rule np_sum_zeros)
  with assms(1) have "\<not> all_rows_close a"
    using not_isclose_zero_one by (auto simp: all_rows_close_def list_all_length)
  with assms s show ?thesis by (simp add: normalize_probs_nth fdiv_zeros)
qed

lemma zero_row_position:
  assumes "r < length a" and "list_all (\<lambda>x. x = Fin 0) (a ! r)"
  shows "positions rng a ! r = 0"
proof -
  from assms have "a_cum_probs a ! r = replicate (length (a ! r)) NaN"
    by (simp add: a_cum_probs_def np_cumsum_def zero_row_normalized cumsum_from_replicate_NaN)
  with assms(1) have "comparison_result rng a ! r = replicate (length (a ! r)) False"
    by (simp add: comparison_result_nth)
  with assms(1) show ?thesis by (simp add: positions_nth np_argmax_all_False)
qed

text \<open>
  Claim C10. In a valid matrix with matching labels, a row of zeros has sum 0, so the
  matrix is rescaled and the row, divided by 0, becomes a row of \<^verbatim>\<open>nan\<close>. The call
  raises nothing, the index sampled for the row is 0, and with a correction other than
  \<^verbatim>\<open>uniform\<close> the row's output is the first label.
\<close>

theorem zero_row_first_category:
  assumes "valid_prob_matrix a" and "labels_ok cats a" and "r < shape0 a"
    and "list_all (\<lambda>x. x = Fin 0) (a ! r)"
  shows "normalize_probs a ! r = replicate (shape1 a) NaN \<and>
         positions rng a ! r = 0 \<and>
         (\<exists>v. fst (nps_nhpp rng a correction cats) = Inr v) \<and>
         (correction \<noteq> ''uniform'' \<longrightarrow>
            (\<exists>vals. fst (nps_nhpp rng a correction cats) = Inr (Array1 vals) \<and>
               length vals = shape0 a \<and> vals ! r = labels_of cats a ! 0))"
proof -
  from assms(3) have r: "r < length a" by (simp add: shape0_def)
  from assms(1) r have len: "length (a ! r) = shape1 a"
    by (simp add: valid_prob_matrix_def rectangular_nth)
  have n: "normalize_probs a ! r = replicate (shape1 a) NaN"
    using zero_row_normalized [OF r assms(4)] len by simp
  have p: "positions rng a ! r = 0" using r assms(4) by (rule zero_row_position)
  note v = nps_nhpp_value [OF assms(1,2), of rng correction]
  have e: "\<exists>v. fst (nps_nhpp rng a correction cats) = Inr v" by (simp add: v)
  have "\<exists>vals. fst (nps_nhpp rng a correction cats) = Inr (Array1 vals) \<and>
          length vals = shape0 a \<and> vals ! r = labels_of cats a ! 0"
    if "correction \<noteq> ''uniform''"
    using that r p by (simp add: v shape0_def)
  with n p e show ?thesis by blast
qed

theorem zero_row_first_category_witness:
  "valid_prob_matrix [[Fin (1/2), Fin (1/2)], [Fin 0, Fin 0]] \<and>
   labels_ok (Some [Fin 7, Fin 8]) [[Fin (1/2), Fin (1/2)], [Fin 0, Fin 0]] \<and>
   (1::nat) < shape0 [[Fin (1/2), Fin (1/2)], [Fin 0, Fin 0]] \<and>
   list_all (\<lambda>x. x = Fin 0) ([[Fin (1/2), Fin (1/2)], [Fin 0, Fin 0]] ! 1) \<and>
   ''none'' \<noteq> ''uniform'' \<and>
   normalize_probs [[Fin (1/2), Fin (1/2)], [Fin 0, Fin 0]] ! 1 = [NaN, NaN] \<and>
   positions (nth [3/4, 1/4]) [[Fin (1/2), Fin (1/2)], [Fin 0, Fin 0]] ! 1 = 0 \<and>
   (\<exists>vals. fst (nps_nhpp (nth [3/4, 1/4]) [[Fin (1/2), Fin (1/2)], [Fin 0, Fin 0]] ''none''
                  (Some [Fin 7, Fin 8])) = Inr (Array1 vals) \<and> vals ! 1 = Fin 7)"
proof -
  let ?a = "[[Fin (1/2), Fin (1/2)], [Fin 0, Fin 0]]"
  have v: "valid_prob_matrix ?a"
    by (simp add: valid_prob_matrix_def shape0_def shape1_def rectangular_def nonneg_entries_def)
  have l: "labels_ok (Some [Fin 7, Fin 8]) ?a"
    by (simp add: labels_ok_def labels_of_def shape1_def)
  have r: "(1::nat) < shape0 ?a" by (simp add: shape0_def)
  have z: "list_all (\<lambda>x. x = Fin 0) (?a ! 1)" by simp
  have c: "''none'' \<noteq> ''uniform''" by simp
  have s: "shape1 ?a = 2" by (simp add: shape1_def)
  have lab: "labels_of (Some [Fin 7, Fin 8]) ?a ! 0 = Fin 7" by (simp add: labels_of_def)
  note T = zero_row_first_category [OF v l r z, of "nth [3/4, 1/4]" "''none''"]
  from T s have n: "normalize_probs ?a ! 1 = [NaN, NaN]" by (simp add: numeral_2_eq_2)
  from T have p: "positions (nth [3/4, 1/4]) ?a ! 1 = 0" by blast
  from T c lab have e: "\<exists>vals. fst (nps_nhpp (nth [3/4, 1/4]) ?a ''none''
                  (Some [Fin 7, Fin 8])) = Inr (Array1 vals) \<and> vals ! 1 = Fin 7"
    by auto
  from v l r z c n p e show ?thesis by (intro conjI) (simp_all only: simp_thms)
qed

subsection \<open>Number of outputs\<close>

text \<open>
  With correction \<^verbatim>\<open>none\<close> the call returns a one-dimensional array of \<open>n_rows\<close> values,
  each one of the labels; the default labels are the indices below \<open>n_categories\<close>. With
  correction \<^verbatim>\<open>uniform\<close> it returns a two-dimensional array of \<open>n_rows\<close> rows of \<open>n_rows\<close>
  values, entry \<open>(i, j)\<close> being the label sampled for row \<open>j\<close> plus the draw of row \<open>i\<close>.
\<close>

lemma nps_nhpp_none_outputs:
  assumes "valid_prob_matrix a" and "labels_ok cats a"
  shows "\<exists>vals. nps_nhpp rng a ''none'' cats = (Inr (Array1 vals), []) \<and>
           length vals = shape0 a \<and> set vals \<subseteq> set (labels_of cats a)"
proof -
  have "labels_of cats a ! p \<in> set (labels_of cats a)" if "p \<in> set (positions rng a)" for p
  proof -
    from that obtain r where "r < length (positions rng a)" "positions rng a ! r = p"
      by (auto simp: in_set_conv_nth)
    with assms have "p < length (labels_of cats a)"
      using positions_less [of a r rng] by (simp add: shape0_def labels_ok_def)
    then show ?thesis by simp
  qed
  then show ?thesis
    using nps_nhpp_value [OF assms, of rng "''none''"]
    by (auto simp: valid_correction_def shape0_def)
qed

lemma default_labels: "set (labels_of None a) = (\<lambda>i. Fin (real i)) ` {0..<shape1 a}"
  by (simp add: labels_of_def np_arange_def)

lemma nps_nhpp_uniform_outputs:
  assumes "valid_prob_matrix a" and "labels_ok cats a"
  shows "\<exists>m. nps_nhpp rng a ''uniform'' cats = (Inr (Array2 m), []) \<and>
           length m = shape0 a \<and> (\<forall>row \<in> set m. length row = shape0 a) \<and>
           (\<forall>i < shape0 a. \<forall>j < shape0 a.
              m ! i ! j = fadd (labels_of cats a ! (positions rng a ! j)) (Fin (rng i)))"
  using nps_nhpp_value [OF assms, of rng "''uniform''"]
  by (auto simp: valid_correction_def shape0_def add_column_def random_uniform_def)

text \<open>
  Claim C4 at a matrix of two rows with correction \<^verbatim>\<open>uniform\<close>: the call returns four
  values in a 2 by 2 array, where the claim has two outputs.
\<close>

theorem uniform_returns_square_array:
  "nps_nhpp (nth [1/4, 3/4]) [[Fin 1, Fin 0], [Fin 0, Fin 1]] ''uniform'' None =
   (Inr (Array2 [[Fin (1/4), Fin (5/4)], [Fin (3/4), Fin (7/4)]]), [])"
  by (simp add: nps_nhpp_def valid_correction_def labels_of_def np_arange_def shape1_def shape0_def
        random_uniform_def take_labels_def positions_def comparison_result_def a_cum_probs_def
        normalize_probs_def all_rows_close_def np_sum_def atol_def rtol_def np_cumsum_def
        np_argmax_def add_column_def upt_rec)

text \<open>
  Claim C5 at a matrix of two rows: row 0 samples category 0 with draw \<open>1/8\<close>, row 1
  samples category 2 with draw \<open>7/8\<close>. The array returned holds \<open>2 + 1/8\<close> in row 0,
  the label of row 1 with the draw of row 0, outside \<open>[0, 1)\<close>, and \<open>0 + 7/8\<close> in row 1,
  outside \<open>[2, 3)\<close>.
\<close>

theorem jitter_mixes_rows:
  "positions (nth [1/8, 7/8]) [[Fin (1/2), Fin (1/4), Fin (1/4)], [Fin (1/4), Fin (1/4), Fin (1/2)]] = [0, 2] \<and>
   nps_nhpp (nth [1/8, 7/8]) [[Fin (1/2), Fin (1/4), Fin (1/4)], [Fin (1/4), Fin (1/4), Fin (1/2)]]
     ''uniform'' None =
   (Inr (Array2 [[Fin (1/8), Fin (17/8)], [Fin (7/8), Fin (23/8)]]), [])"
  by (simp add: nps_nhpp_def valid_correction_def labels_of_def np_arange_def shape1_def shape0_def
        random_uniform_def take_labels_def positions_def comparison_result_def a_cum_probs_def
        normalize_probs_def all_rows_close_def np_sum_def atol_def rtol_def np_cumsum_def
        np_argmax_def add_column_def upt_rec)

section \<open>Properties of the hazard-to-PMF transform\<close>

subsection \<open>One stratum of the frame\<close>

lemma add_columns_Cons:
  "add_columns acc prev (r # df) =
     (let y = fsub (Rate r) (snd (acc (Sex r)));
          t = fadd (fst (acc (Sex r))) y;
          h = (if isnan (Rate r) then NaN else t);
          f = fsub (Fin 1) (fexp (fneg h))
      in raw_row.extend r (mort_row.fields h (fexp (fneg h)) f
           (fillna (case prev (Sex r) of None \<Rightarrow> NaN | Some q \<Rightarrow> fsub f q) f))
         # add_columns
             (if isnan (Rate r) then acc
              else acc(Sex r := (t, fsub (fsub t (fst (acc (Sex r)))) y)))
             (prev(Sex r \<mapsto> f)) df)"
  by (simp add: add_columns_def Let_def fsub_def split: option.split)

lemma add_columns_Nil [simp]: "add_columns acc prev [] = []"
  by (simp add: add_columns_def)

lemma Sex_extend [simp]: "Sex (raw_row.extend r m) = Sex r"
  by (simp add: raw_row.extend_def)

lemma stratum_Nil [simp]: "stratum s [] = []"
  by (simp add: stratum_def)

lemma stratum_Cons:
  "stratum s (r # df) = (if Sex r = s then r # stratum s df else stratum s df)"
  by (simp add: stratum_def)

lemma Sex_curve_row [simp]: "Sex (curve_row r hp) = Sex r"
  by (simp add: curve_row_def)

lemma stratum_add_columns:
  assumes "map Rate (stratum s df) = map Fin rs" and "acc s = (Fin a, Fin 0)"
    and "prev s = map_option Fin q"
  shows "stratum s (add_columns acc prev df) =
         map2 curve_row (stratum s df)
           (zip (running_sum a rs) (first_diff q (map (\<lambda>h. 1 - exp (- h)) (running_sum a rs))))"
  using assms
proof (induction df arbitrary: acc prev rs a q)
  case Nil
  then show ?case by simp
next
  case (Cons r df)
  show ?case
  proof (cases "Sex r = s")
    case False
    with Cons.prems have "map Rate (stratum s df) = map Fin rs" by (simp add: stratum_Cons)
    moreover from False Cons.prems
    have "(if isnan (Rate r) then acc else acc(Sex r := h)) s = (Fin a, Fin 0)" for h by simp
    moreover from False Cons.prems have "(prev(Sex r \<mapsto> f)) s = map_option Fin q" for f by simp
    ultimately show ?thesis
      using False Cons.IH by (simp add: add_columns_Cons Let_def stratum_Cons)
  next
    case True
    with Cons.prems obtain x rs' where rs: "rs = x # rs'" and x: "Rate r = Fin x"
      and rest: "map Rate (stratum s df) = map Fin rs'"
      by (auto simp: stratum_Cons map_eq_Cons_conv)
    let ?h = "a + x"
    let ?f = "1 - exp (- ?h)"
    have acc': "(acc(Sex r := (Fin ?h, Fin 0))) s = (Fin ?h, Fin 0)" using True by simp
    have prev': "(prev(Sex r \<mapsto> Fin ?f)) s = map_option Fin (Some ?f)" using True by simp
    note IH = Cons.IH [where rs = rs' and a = ?h and q = "Some ?f"
        and acc = "acc(Sex r := (Fin ?h, Fin 0))" and prev = "prev(Sex r \<mapsto> Fin ?f)", OF rest acc' prev']
    let ?p = "case q of None \<Rightarrow> ?f | Some g \<Rightarrow> ?f - g"
    let ?acc = "acc(Sex r := (Fin ?h, Fin 0))"
    let ?prev = "prev(Sex r \<mapsto> Fin ?f)"
    have head: "add_columns acc prev (r # df) = curve_row r (?h, ?p) # add_columns ?acc ?prev df"
      using True x Cons.prems(2,3)
      by (cases q) (simp_all add: add_columns_Cons Let_def fsub_def fillna_def curve_row_def)
    have "stratum s (add_columns acc prev (r # df)) =
          curve_row r (?h, ?p) # stratum s (add_columns ?acc ?prev df)"
      using True by (simp add: head stratum_Cons)
    also have "\<dots> = curve_row r (?h, ?p) # map2 curve_row (stratum s df)
           (zip (running_sum ?h rs')
             (first_diff (Some ?f) (map (\<lambda>h. 1 - exp (- h)) (running_sum ?h rs'))))"
      by (simp only: IH)
    also have "\<dots> = map2 curve_row (stratum s (r # df))
           (zip (running_sum a rs) (first_diff q (map (\<lambda>h. 1 - exp (- h)) (running_sum a rs))))"
      using True by (cases q) (simp_all add: stratum_Cons rs)
    finally show ?thesis .
  qed
qed

lemma length_running_sum [simp]: "length (running_sum a rs) = length rs"
  by (induction rs arbitrary: a) simp_all

lemma length_first_diff [simp]: "length (first_diff q fs) = length fs"
  by (induction fs arbitrary: q) simp_all

lemma running_sum_nth:
  "t < length rs \<Longrightarrow> running_sum a rs ! t = a + sum_list (take (Suc t) rs)"
proof (induction rs arbitrary: a t)
  case Nil
  then show ?case by simp
next
  case (Cons x rs)
  then show ?case by (cases t) (simp_all add: add.assoc)
qed

lemma first_diff_nth:
  "t < length fs \<Longrightarrow>
   first_diff q fs ! t =
     (if t = 0 then (case q of None \<Rightarrow> fs ! 0 | Some g \<Rightarrow> fs ! 0 - g) else fs ! t - fs ! (t - 1))"
proof (induction fs arbitrary: q t)
  case Nil
  then show ?case by simp
next
  case (Cons f fs)
  show ?case
  proof (cases t)
    case 0
    then show ?thesis by (cases q) simp_all
  next
    case (Suc u)
    with Cons.prems have "u < length fs" by simp
    then have "first_diff (Some f) fs ! u =
      (if u = 0 then fs ! 0 - f else fs ! u - fs ! (u - 1))"
      by (simp add: Cons.IH)
    with Suc show ?thesis by (cases u) simp_all
  qed
qed

lemma curve_row_sel [simp]:
  "H_t (curve_row r hp) = Fin (fst hp)"
  "S_t (curve_row r hp) = Fin (exp (- fst hp))"
  "F_t (curve_row r hp) = Fin (1 - exp (- fst hp))"
  "p_t (curve_row r hp) = Fin (snd hp)"
  "Age (curve_row r hp) = Age r"
  "Year (curve_row r hp) = Year r"
  "Rate (curve_row r hp) = Rate r"
  by (simp_all add: curve_row_def raw_row.extend_def mort_row.fields_def)

lemma stratum_df_mort_data_1:
  assumes "map Rate (stratum s df) = map Fin rs"
  shows "stratum s (df_mort_data_1 df) =
         map2 curve_row (stratum s df)
           (zip (running_sum 0 rs) (first_diff None (map (\<lambda>h. 1 - exp (- h)) (running_sum 0 rs))))"
  unfolding df_mort_data_1_def
  using assms by (rule stratum_add_columns [where q = None]) simp_all

lemma length_stratum_rates:
  "map Rate (stratum s df) = map Fin rs \<Longrightarrow> length (stratum s df) = length rs"
  by (metis length_map)

lemma stratum_df_mort_data_1_nth:
  assumes "map Rate (stratum s df) = map Fin rs" and "t < length rs"
  shows "stratum s (df_mort_data_1 df) ! t =
         curve_row (stratum s df ! t) (spec_H rs t, spec_p rs t)"
proof -
  from assms have l: "t < length (stratum s df)" by (simp add: length_stratum_rates)
  have h: "running_sum 0 rs ! t = spec_H rs t"
    using assms(2) by (simp add: running_sum_nth spec_H_def)
  have f: "map (\<lambda>h. 1 - exp (- h)) (running_sum 0 rs) ! u = spec_F rs u" if "u < length rs" for u
    using that by (simp add: running_sum_nth spec_F_def spec_S_def spec_H_def)
  have "first_diff None (map (\<lambda>h. 1 - exp (- h)) (running_sum 0 rs)) ! t = spec_p rs t"
  proof (cases "t = 0")
    case True
    with assms(2) f [of 0] show ?thesis by (simp add: first_diff_nth spec_p_def)
  next
    case False
    with assms(2) f [of t] f [of "t - 1"] show ?thesis by (simp add: first_diff_nth spec_p_def)
  qed
  with h l assms show ?thesis by (simp add: stratum_df_mort_data_1)
qed

subsection \<open>The terminal row\<close>

lemma stratum_groupby_tail1:
  "stratum s (groupby_tail1 rows) = (if stratum s rows = [] then [] else [last (stratum s rows)])"
proof (induction rows)
  case Nil
  then show ?case by simp
next
  case (Cons r rows)
  have in_set: "Sex r \<in> set (map Sex rows) \<longleftrightarrow> stratum (Sex r) rows \<noteq> []"
    by (auto simp: stratum_def filter_empty_conv intro: rev_image_eqI)
  show ?case
  proof (cases "Sex r = s")
    case True
    with Cons.IH in_set show ?thesis by (auto simp: stratum_Cons)
  next
    case False
    with Cons.IH show ?thesis by (simp add: stratum_Cons)
  qed
qed

lemma append_row_sel [simp]:
  "Sex (append_row r) = Sex r"
  "Year (append_row r) = Year r"
  "Age (append_row r) = 101"
  "Rate (append_row r) = NaN"
  "H_t (append_row r) = NaN"
  "p_t (append_row r) = fsub (Fin 1) (F_t r)"
  by (simp_all add: append_row_def Let_def)

lemma stratum_map_append_row: "stratum s (map append_row rows) = map append_row (stratum s rows)"
  by (induction rows) (simp_all add: stratum_Cons)

lemma stratum_df_mort_append_0:
  assumes "map Rate (stratum s df) = map Fin rs" and "rs \<noteq> []"
  shows "stratum s (df_mort_append_0 df) = [append_row (last (stratum s (df_mort_data_1 df)))]"
proof -
  from assms have "length (stratum s (df_mort_data_1 df)) = length rs"
    by (simp add: stratum_df_mort_data_1 length_stratum_rates)
  with assms(2) have "stratum s (df_mort_data_1 df) \<noteq> []" by auto
  then show ?thesis
    by (simp add: df_mort_append_0_def stratum_map_append_row stratum_groupby_tail1)
qed

lemma terminal_mass:
  assumes "map Rate (stratum s df) = map Fin rs" and "rs \<noteq> []"
  shows "p_t (append_row (last (stratum s (df_mort_data_1 df)))) =
         Fin (1 - spec_F rs (length rs - 1))"
proof -
  let ?g = "stratum s (df_mort_data_1 df)"
  from assms have len: "length ?g = length rs"
    by (simp add: stratum_df_mort_data_1 length_stratum_rates)
  with assms(2) have "last ?g = ?g ! (length rs - 1)"
    by (metis last_conv_nth length_0_conv)
  also from assms have "\<dots> = curve_row (stratum s df ! (length rs - 1))
       (spec_H rs (length rs - 1), spec_p rs (length rs - 1))"
    by (simp add: stratum_df_mort_data_1_nth)
  finally show ?thesis by (simp add: fsub_def spec_F_def spec_S_def)
qed

subsection \<open>The end-to-end scenario\<close>







subsection \<open>The completed distribution\<close>

lemma running_sum_ge: "\<forall>x\<in>set rs. 0 \<le> x \<Longrightarrow> \<forall>h\<in>set (running_sum a rs). a \<le> h"
proof (induction rs arbitrary: a)
  case Nil
  then show ?case by simp
next
  case (Cons x rs)
  then have "\<forall>h\<in>set (running_sum (a + x) rs). a + x \<le> h" by simp
  with Cons.prems show ?case by fastforce
qed

lemma running_sum_sorted: "\<forall>x\<in>set rs. 0 \<le> x \<Longrightarrow> sorted (running_sum a rs)"
proof (induction rs arbitrary: a)
  case Nil
  then show ?case by simp
next
  case (Cons x rs)
  then have "\<forall>h\<in>set (running_sum (a + x) rs). a + x \<le> h"
    using running_sum_ge [of rs "a + x"] by simp
  with Cons show ?case by simp
qed

lemma first_diff_nonneg:
  assumes "sorted fs"
    and "case q of None \<Rightarrow> \<forall>f\<in>set fs. 0 \<le> f | Some g \<Rightarrow> \<forall>f\<in>set fs. g \<le> f"
  shows "\<forall>p\<in>set (first_diff q fs). 0 \<le> p"
  using assms
proof (induction fs arbitrary: q)
  case Nil
  then show ?case by simp
next
  case (Cons f fs)
  from Cons.prems(1) have "sorted fs" and "\<forall>x\<in>set fs. f \<le> x" by simp_all
  then have "\<forall>p\<in>set (first_diff (Some f) fs). 0 \<le> p"
    using Cons.IH [of "Some f"] by simp
  moreover from Cons.prems(2) have "0 \<le> (case q of None \<Rightarrow> f | Some g \<Rightarrow> f - g)"
    by (cases q) simp_all
  ultimately show ?case by simp
qed

lemma sum_list_first_diff:
  "fs \<noteq> [] \<Longrightarrow>
   sum_list (first_diff q fs) = (case q of None \<Rightarrow> last fs | Some g \<Rightarrow> last fs - g)"
proof (induction fs arbitrary: q)
  case Nil
  then show ?case by simp
next
  case (Cons f fs)
  show ?case
  proof (cases "fs = []")
    case True
    then show ?thesis by (cases q) simp_all
  next
    case False
    then have "sum_list (first_diff (Some f) fs) = last fs - f" by (simp add: Cons.IH)
    with False show ?thesis by (cases q) simp_all
  qed
qed

lemma map_p_t_curve_rows:
  "length xs = length hs \<Longrightarrow> length hs = length ps \<Longrightarrow>
   map p_t (map2 curve_row xs (zip hs ps)) = map Fin ps"
  by (rule nth_equalityI) simp_all

lemma all_Fin_map: "\<forall>x\<in>set xs. \<exists>a. x = Fin a \<Longrightarrow> \<exists>zs. xs = map Fin zs"
proof (induction xs)
  case Nil
  then show ?case by simp
next
  case (Cons x xs)
  then obtain a zs where "x = Fin a" "xs = map Fin zs" by auto
  then have "x # xs = map Fin (a # zs)" by simp
  then show ?case by (rule exI)
qed

lemma running_sum_eq_Nil [simp]: "running_sum a rs = [] \<longleftrightarrow> rs = []"
  by (cases rs) simp_all

lemma nansum_perm_Fin:
  assumes "mset xs = mset (map Fin ys)"
  shows "nansum xs = Fin (sum_list ys)"
proof -
  from assms have "set xs = set (map Fin ys)" by (rule mset_eq_setD)
  then have fin: "\<forall>x\<in>set xs. \<exists>a. x = Fin a" by auto
  then obtain zs where zs: "xs = map Fin zs" using all_Fin_map by blast
  define g where "g = case_npfloat (\<lambda>a. a) 0 0 (0::real)"
  have g: "map g (map Fin vs) = vs" for vs by (simp add: g_def comp_def)
  from assms zs have "image_mset g (mset (map Fin zs)) = image_mset g (mset (map Fin ys))"
    by simp
  then have "mset (map g (map Fin zs)) = mset (map g (map Fin ys))"
    by (simp only: mset_map)
  then have "mset zs = mset ys" by (simp only: g)
  then have "sum_list zs = sum_list ys" by (metis sum_mset_sum_list)
  moreover have "filter (\<lambda>x. \<not> isnan x) (map Fin zs) = map Fin zs"
    by (induction zs) simp_all
  ultimately show ?thesis by (simp add: nansum_def zs np_sum_Fin)
qed

lemma stratum_append: "stratum s (xs @ ys) = stratum s xs @ stratum s ys"
  by (simp add: stratum_def)

lemma stratum_df_mort_data_2:
  "stratum s (df_mort_data_2 df) =
   sort_key (\<lambda>r. (Sex r, Year r, Age r)) (stratum s (df_mort_data_1 df) @ stratum s (df_mort_append_0 df))"
  by (simp add: df_mort_data_2_def stratum_def filter_sort)

lemma completed_stratum:
  assumes "map Rate (stratum s df) = map Fin rs" and "rs \<noteq> []"
  shows "mset (map p_t (stratum s (df_mort_data_2 df))) =
         mset (map Fin (first_diff None (map (\<lambda>h. 1 - exp (- h)) (running_sum 0 rs))
                 @ [1 - spec_F rs (length rs - 1)]))"
proof -
  let ?g = "stratum s (df_mort_data_1 df)"
  have "map p_t ?g = map p_t (map2 curve_row (stratum s df)
           (zip (running_sum 0 rs) (first_diff None (map (\<lambda>h. 1 - exp (- h)) (running_sum 0 rs)))))"
    by (simp only: stratum_df_mort_data_1 [OF assms(1)])
  also have "\<dots> = map Fin (first_diff None (map (\<lambda>h. 1 - exp (- h)) (running_sum 0 rs)))"
    by (rule map_p_t_curve_rows) (simp_all add: length_stratum_rates [OF assms(1)])
  finally have g: "map p_t ?g =
      map Fin (first_diff None (map (\<lambda>h. 1 - exp (- h)) (running_sum 0 rs)))" .
  have a: "stratum s (df_mort_append_0 df) = [append_row (last ?g)]"
    using assms by (rule stratum_df_mort_append_0)
  have t: "p_t (append_row (last ?g)) = Fin (1 - spec_F rs (length rs - 1))"
    using assms by (rule terminal_mass)
  have "mset (map p_t (stratum s (df_mort_data_2 df))) =
        image_mset p_t (mset (?g @ stratum s (df_mort_append_0 df)))"
    by (simp add: stratum_df_mort_data_2 del: mset_append)
  also have "\<dots> = mset (map p_t ?g @ [p_t (append_row (last ?g))])"
    by (simp add: a)
  finally show ?thesis by (simp only: g t map_append list.map)
qed

lemma last_curve_F:
  assumes "rs \<noteq> []"
  shows "last (map (\<lambda>h. 1 - exp (- h)) (running_sum 0 rs)) = spec_F rs (length rs - 1)"
proof -
  from assms have "last (map (\<lambda>h. 1 - exp (- h)) (running_sum 0 rs)) =
      map (\<lambda>h. 1 - exp (- h)) (running_sum 0 rs) ! (length rs - 1)"
    by (simp add: last_conv_nth)
  with assms show ?thesis
    by (simp add: running_sum_nth spec_F_def spec_S_def spec_H_def)
qed

lemma sorted_curve_F: "sorted hs \<Longrightarrow> sorted (map (\<lambda>h. 1 - exp (- h)) hs)"
  for hs :: "real list"
  by (induction hs) simp_all

text \<open>
  With exact arithmetic, for a stratum with finite, non-negative hazard increments: the
  completed frame holds one row more than the stratum has records, the probabilities of
  its rows sum to 1 and every one of them is \<^verbatim>\<open>>= 0\<close>, as computed, the code having no
  clamp. What the rounding and the overflow of doubles do to the sum and to the signs is
  outside the model.
\<close>

lemma completed_pmf_exact:
  assumes "map Rate (stratum s df) = map Fin rs" and "rs \<noteq> []" and "\<forall>x\<in>set rs. 0 \<le> x"
  shows "p_t_sum (df_mort_data_2 df) s = Fin 1 \<and>
         length (stratum s (df_mort_data_2 df)) = length rs + 1 \<and>
         list_all (\<lambda>r. fge (p_t r) (Fin 0)) (stratum s (df_mort_data_2 df))"
proof -
  define F where "F = map (\<lambda>h. 1 - exp (- h)) (running_sum 0 rs)"
  define ps where "ps = first_diff None F @ [1 - spec_F rs (length rs - 1)]"
  define col where "col = map p_t (stratum s (df_mort_data_2 df))"
  have c: "mset col = mset (map Fin ps)"
    unfolding col_def ps_def F_def using assms(1,2) by (rule completed_stratum)
  from assms(2) have "F \<noteq> []" by (simp add: F_def)
  then have "sum_list (first_diff None F) = last F" by (simp add: sum_list_first_diff)
  also have "\<dots> = spec_F rs (length rs - 1)"
    unfolding F_def using assms(2) by (rule last_curve_F)
  finally have one: "sum_list ps = 1" by (simp add: ps_def)
  have "nansum col = Fin (sum_list ps)" using c by (rule nansum_perm_Fin)
  with one have total: "p_t_sum (df_mort_data_2 df) s = Fin 1"
    by (simp only: p_t_sum_def col_def)
  have "sorted (running_sum 0 rs)" using assms(3) by (rule running_sum_sorted)
  then have sF: "sorted F" unfolding F_def by (rule sorted_curve_F)
  have "\<forall>h\<in>set (running_sum 0 rs). 0 \<le> h" using assms(3) by (rule running_sum_ge)
  then have "\<forall>f\<in>set F. 0 \<le> f" by (simp add: F_def)
  with sF have "\<forall>p\<in>set (first_diff None F). 0 \<le> p"
    using first_diff_nonneg [of F None] by simp
  moreover have "0 \<le> 1 - spec_F rs (length rs - 1)" by (simp add: spec_F_def spec_S_def)
  ultimately have nn: "\<forall>p\<in>set ps. 0 \<le> p" by (simp add: ps_def)
  from c have "set col = set (map Fin ps)" by (rule mset_eq_setD)
  with nn have "\<forall>v\<in>set col. fge v (Fin 0)" by auto
  then have pos: "list_all (\<lambda>r. fge (p_t r) (Fin 0)) (stratum s (df_mort_data_2 df))"
    by (simp add: list_all_iff col_def)
  from c have "length col = length (map Fin ps)" by (rule mset_eq_length)
  then have len: "length (stratum s (df_mort_data_2 df)) = length rs + 1"
    by (simp add: col_def ps_def F_def)
  from total len pos show ?thesis by (intro conjI)
qed

subsection \<open>No check of the sum\<close>

lemma map_Sex_add_columns: "map Sex (add_columns acc prev df) = map Sex df"
  by (induction df arbitrary: acc prev) (simp_all add: add_columns_Cons Let_def)

lemma stratum_empty_iff: "stratum s xs = [] \<longleftrightarrow> s \<notin> set (map Sex xs)"
  by (auto simp: stratum_def filter_empty_conv)

lemma stratum_df_mort_data_1_empty_iff:
  "stratum s (df_mort_data_1 df) = [] \<longleftrightarrow> stratum s df = []"
  by (simp only: stratum_empty_iff df_mort_data_1_def map_Sex_add_columns)

lemma stratum_terminal_row:
  assumes "stratum s df \<noteq> []"
  shows "stratum s (df_mort_append_0 df) = [append_row (last (stratum s (df_mort_data_1 df)))]"
proof -
  from assms have "stratum s (df_mort_data_1 df) \<noteq> []"
    by (simp only: stratum_df_mort_data_1_empty_iff not_False_eq_True)
  then show ?thesis
    by (simp add: df_mort_append_0_def stratum_map_append_row stratum_groupby_tail1)
qed

text \<open>
  Claim C8, as the code has it. The scripts make no assertion about the sum and raise
  nothing; nothing is rescaled either. The completed frame holds exactly the rows of the
  transform and the appended rows, and the probabilities of a stratum in it are those
  the transform computed together with the one of its appended row, 1 minus the last
  \<open>F_t\<close> of the stratum, whatever they sum to.
\<close>

theorem completed_frame_keeps_rows:
  assumes "stratum s df \<noteq> []"
  shows "mset (df_mort_data_2 df) = mset (df_mort_data_1 df) + mset (df_mort_append_0 df) \<and>
         mset (map p_t (stratum s (df_mort_data_2 df))) =
           mset (map p_t (stratum s (df_mort_data_1 df))) +
           {#fsub (Fin 1) (F_t (last (stratum s (df_mort_data_1 df))))#}"
proof -
  have whole: "mset (df_mort_data_2 df) = mset (df_mort_data_1 df) + mset (df_mort_append_0 df)"
    by (simp add: df_mort_data_2_def)
  have "mset (map p_t (stratum s (df_mort_data_2 df))) =
        image_mset p_t (mset (stratum s (df_mort_data_1 df) @ stratum s (df_mort_append_0 df)))"
    by (simp add: stratum_df_mort_data_2 del: mset_append)
  also have "\<dots> = mset (map p_t (stratum s (df_mort_data_1 df))) +
      {#fsub (Fin 1) (F_t (last (stratum s (df_mort_data_1 df))))#}"
    by (simp add: stratum_terminal_row [OF assms])
  finally show ?thesis using whole by (intro conjI)
qed

theorem completed_frame_keeps_rows_witness:
  "stratum ''M'' [\<lparr>Sex = ''F'', Year = 2015, Age = 0, Rate = Fin 0\<rparr>,
                  \<lparr>Sex = ''M'', Year = 2015, Age = 0, Rate = NaN\<rparr>] \<noteq> [] \<and>
   mset (map p_t (stratum ''M'' (df_mort_data_2
     [\<lparr>Sex = ''F'', Year = 2015, Age = 0, Rate = Fin 0\<rparr>,
      \<lparr>Sex = ''M'', Year = 2015, Age = 0, Rate = NaN\<rparr>]))) = {#NaN, NaN#} \<and>
   map p_t (stratum ''M'' (df_mort_data_1
     [\<lparr>Sex = ''F'', Year = 2015, Age = 0, Rate = Fin 0\<rparr>,
      \<lparr>Sex = ''M'', Year = 2015, Age = 0, Rate = NaN\<rparr>])) = [NaN]"
proof -
  let ?df = "[\<lparr>Sex = ''F'', Year = 2015, Age = 0, Rate = Fin 0\<rparr>,
              \<lparr>Sex = ''M'', Year = 2015, Age = 0, Rate = NaN\<rparr>]"
  have h: "stratum ''M'' ?df \<noteq> []" by (simp add: stratum_def)
  have g: "stratum ''M'' (df_mort_data_1 ?df) =
      [\<lparr>Sex = ''M'', Year = 2015, Age = 0, Rate = NaN, H_t = NaN, S_t = NaN, F_t = NaN, p_t = NaN\<rparr>]"
    by (simp add: stratum_def df_mort_data_1_def add_columns_def Let_def fsub_def fillna_def
        raw_row.extend_def mort_row.fields_def)
  note T = completed_frame_keeps_rows [OF h, THEN conjunct2]
  from T have m: "mset (map p_t (stratum ''M'' (df_mort_data_2 ?df))) = {#NaN, NaN#}"
    by (simp add: g fsub_def)
  from g have p: "map p_t (stratum ''M'' (df_mort_data_1 ?df)) = [NaN]" by simp
  from h m p show ?thesis by (intro conjI)
qed

text \<open>
  Claim C8 as stated fails: with a missing rate (\<^verbatim>\<open>nan\<close>) the probabilities of the
  stratum sum to 0, as pandas skips \<^verbatim>\<open>nan\<close>, and the completed frame is built all the
  same.
\<close>

theorem no_normalization_check_counterexample:
  "df_mort_data_2 [\<lparr>Sex = ''A'', Year = 2015, Age = 0, Rate = NaN\<rparr>] =
     [\<lparr>Sex = ''A'', Year = 2015, Age = 0, Rate = NaN, H_t = NaN, S_t = NaN, F_t = NaN, p_t = NaN\<rparr>,
      \<lparr>Sex = ''A'', Year = 2015, Age = 101, Rate = NaN, H_t = NaN, S_t = Fin 1, F_t = Fin 0,
        p_t = NaN\<rparr>] \<and>
   p_t_sum (df_mort_data_2 [\<lparr>Sex = ''A'', Year = 2015, Age = 0, Rate = NaN\<rparr>]) ''A'' = Fin 0 \<and>
   \<not> \<bar>0 - 1\<bar> \<le> (1 / 10 ^ 8 :: real)"
  by (simp add: p_t_sum_def stratum_def df_mort_data_2_def df_mort_append_0_def append_row_def
      nansum_def np_sum_def fsub_def fillna_def df_mort_data_1_def add_columns_def Let_def
      raw_row.extend_def mort_row.fields_def)

end
